theory Spec2Isabelle
  imports Complex_Main "HOL-Library.AList" "HOL-Library.List_Lexorder" "HOL-Library.Multiset"
begin

text \<open>
  A model of the scripts of the VLURes benchmark harness: \<open>download_data.py\<close>,
  \<open>run_zeroshot_no_rationales.py\<close>, \<open>run_zeroshot_with_rationales.py\<close> and
  \<open>run_evaluation.py\<close>. The remote endpoints, the network and the data files are
  parameters of the model: a run is a function of what they answer. The first part
  holds the definitions, the second the properties.
\<close>

section \<open>Python values\<close>

text \<open>
  A Python \<open>str\<close> is a sequence of Unicode code points; a code point is a natural
  number. \<open>str\<close> turns an ASCII literal of the source into such a sequence.
\<close>

type_synonym pystr = "nat list"

definition str :: "string \<Rightarrow> pystr" where
  "str s = map of_char s"

text \<open>
  A Python \<open>float\<close>: a finite double (the real number it denotes), the two
  infinities, or NaN. Every ordered comparison with NaN is false.
\<close>

datatype pyfloat = Finite real | PosInf | NegInf | NaN

fun float_lt :: "pyfloat \<Rightarrow> real \<Rightarrow> bool" where
  "float_lt (Finite x) c = (x < c)"
| "float_lt PosInf c = False"
| "float_lt NegInf c = True"
| "float_lt NaN c = False"

fun float_gt :: "pyfloat \<Rightarrow> real \<Rightarrow> bool" where
  "float_gt (Finite x) c = (x > c)"
| "float_gt PosInf c = True"
| "float_gt NegInf c = False"
| "float_gt NaN c = False"

text \<open>
  The values \<open>json.loads\<close> returns and \<open>json.dump\<close> writes. A \<open>dict\<close> is an
  association list in insertion order with distinct keys.
\<close>

datatype pyval =
    PNone
  | PBool bool
  | PInt int
  | PFloat pyfloat
  | PStr pystr
  | PList "pyval list"
  | PDict "(pystr \<times> pyval) list"

type_synonym pydict = "(pystr \<times> pyval) list"

datatype exn =
    TypeError
  | ValueError
  | OverflowError
  | AttributeError
  | KeyError
  | OtherError

text \<open>\<open>d.get(k)\<close>: the value stored under \<open>k\<close>, or \<open>None\<close>.\<close>

definition dict_get :: "pydict \<Rightarrow> pystr \<Rightarrow> pyval" where
  "dict_get d k = (case map_of d k of None \<Rightarrow> PNone | Some v \<Rightarrow> v)"

text \<open>\<open>d[k] = v\<close>: replaces the value in place, or appends a new key at the end.\<close>

definition dict_set :: "pydict \<Rightarrow> pystr \<Rightarrow> pyval \<Rightarrow> pydict" where
  "dict_set d k v = AList.update k v d"

definition dict_keys :: "pydict \<Rightarrow> pystr set" where
  "dict_keys d = set (map fst d)"

text \<open>Truthiness of an optional string: \<open>None\<close> and the empty string are false.\<close>

fun truthy :: "pystr option \<Rightarrow> bool" where
  "truthy None = False"
| "truthy (Some s) = (s \<noteq> [])"

section \<open>The built-in \<open>float()\<close>\<close>

fun bit_length :: "nat \<Rightarrow> nat" where
  "bit_length n = (if n = 0 then 0 else Suc (bit_length (n div 2)))"

text \<open>
  \<open>float(i)\<close> for an \<open>int\<close>: the nearest double, ties to even, on 53 significant
  bits; \<open>OverflowError\<close> when the rounded value leaves the range of a double.
\<close>

definition int_to_float :: "int \<Rightarrow> exn + pyfloat" where
  "int_to_float i =
     (let a = nat \<bar>i\<bar>; n = bit_length a in
      if n \<le> 53 then Inr (Finite (of_int i))
      else
        let sh = n - 53;
            q = a div 2 ^ sh;
            r = a mod 2 ^ sh;
            h = 2 ^ (sh - 1);
            q' = (if r > h \<or> (r = h \<and> odd q) then q + 1 else q);
            m = q' * 2 ^ sh
        in if m \<ge> 2 ^ 1024 then Inl OverflowError
           else Inr (Finite (of_int (sgn i * int m))))"

text \<open>
  \<open>float(v)\<close>. The parser of float literals is the interpreter's and is a parameter
  \<open>parse\<close> of the model: \<open>parse s = None\<close> when \<open>float(s)\<close> raises \<open>ValueError\<close>.
\<close>

fun py_float :: "(pystr \<Rightarrow> pyfloat option) \<Rightarrow> pyval \<Rightarrow> exn + pyfloat" where
  "py_float parse PNone = Inl TypeError"
| "py_float parse (PBool b) = Inr (Finite (if b then 1 else 0))"
| "py_float parse (PInt i) = int_to_float i"
| "py_float parse (PFloat f) = Inr f"
| "py_float parse (PStr s) = (case parse s of None \<Rightarrow> Inl ValueError | Some f \<Rightarrow> Inr f)"
| "py_float parse (PList xs) = Inl TypeError"
| "py_float parse (PDict d) = Inl TypeError"

section \<open>run\_evaluation.py: \<open>clip_score\<close> and \<open>evaluate_one_item\<close>\<close>

definition MAX_RETRIES :: int where
  "MAX_RETRIES = 3"

text \<open>
  \<open>clip_score\<close>: \<open>ValueError\<close> and \<open>TypeError\<close> of \<open>float(score)\<close> are caught and
  give \<open>None\<close>; any other exception leaves the function.
\<close>

definition clip_score :: "(pystr \<Rightarrow> pyfloat option) \<Rightarrow> pyval \<Rightarrow> exn + pyval" where
  "clip_score parse score =
     (case py_float parse score of
        Inl ValueError \<Rightarrow> Inr PNone
      | Inl TypeError \<Rightarrow> Inr PNone
      | Inl e \<Rightarrow> Inl e
      | Inr f \<Rightarrow>
          if float_lt f 0 then Inr (PInt 0)
          else if float_gt f 100 then Inr (PInt 100)
          else Inr (PFloat f))"

text \<open>
  What one call of the judge endpoint leads to inside the \<open>try\<close> block of
  \<open>evaluate_one_item\<close>, up to and including \<open>json.loads(cleaned_text)\<close>.
\<close>

datatype judge_outcome =
    RequestException
  | KeyOrIndexError
  | JSONDecodeError
  | OtherException
  | Loaded pyval

datatype 'a attempt = Return 'a | Retry | Raise exn

text \<open>
  The \<open>try\<close> block: \<open>Return\<close> is its \<open>return\<close> statement, \<open>Retry\<close> is falling
  through to the retry code below it (a caught exception, or a score of \<open>None\<close>), and
  \<open>Raise\<close> is an exception no handler of the function catches.
\<close>

fun try_block :: "(pystr \<Rightarrow> pyfloat option) \<Rightarrow> judge_outcome \<Rightarrow> pyval attempt" where
  "try_block parse RequestException = Retry"
| "try_block parse KeyOrIndexError = Retry"
| "try_block parse JSONDecodeError = Retry"
| "try_block parse OtherException = Raise OtherError"
| "try_block parse (Loaded (PDict score_data)) =
     (case clip_score parse (dict_get score_data (str ''score'')) of
        Inl e \<Rightarrow> Raise e
      | Inr PNone \<Rightarrow> Retry
      | Inr score \<Rightarrow> Return score)"
| "try_block parse (Loaded v) = Raise AttributeError"

text \<open>
  \<open>evaluate_one_item\<close>. \<open>post k\<close> is the outcome of the item's \<open>k\<close>-th call of the
  endpoint (counted from 0); \<open>n\<close> is the number of calls made so far, and the number of
  calls made is returned with the result.
\<close>

function evaluate_one_item ::
  "(pystr \<Rightarrow> pyfloat option) \<Rightarrow> (nat \<Rightarrow> judge_outcome) \<Rightarrow> pystr \<Rightarrow> int \<Rightarrow> nat
     \<Rightarrow> (exn + pystr \<times> pyval) \<times> nat" where
  "evaluate_one_item parse post text_id retry_count n =
     (case try_block parse (post n) of
        Return score \<Rightarrow> (Inr (text_id, PDict [(str ''score'', score)]), Suc n)
      | Raise e \<Rightarrow> (Inl e, Suc n)
      | Retry \<Rightarrow>
          if retry_count < MAX_RETRIES
          then evaluate_one_item parse post text_id (retry_count + 1) (Suc n)
          else (Inr (text_id, PDict [(str ''score'', PInt 50)]), Suc n))"
  by pat_completeness auto
termination
  by (relation "measure (\<lambda>(parse, post, text_id, retry_count, n). nat (MAX_RETRIES - retry_count))")
     auto

section \<open>Strings\<close>

text \<open>The code points \<open>str.strip()\<close> removes (those for which \<open>str.isspace\<close> holds).\<close>

definition isspace :: "nat \<Rightarrow> bool" where
  "isspace c =
     ((9 \<le> c \<and> c \<le> 13) \<or> (28 \<le> c \<and> c \<le> 32) \<or> c = 133 \<or> c = 160 \<or> c = 5760 \<or>
      (8192 \<le> c \<and> c \<le> 8202) \<or> c = 8232 \<or> c = 8233 \<or> c = 8239 \<or> c = 8287 \<or> c = 12288)"

definition py_strip :: "pystr \<Rightarrow> pystr" where
  "py_strip s = rev (dropWhile isspace (rev (dropWhile isspace s)))"

text \<open>
  \<open>str.lower()\<close>, code point by code point: the ASCII capitals, and U+0130 (capital I
  with dot above), the one code point whose lowercase form is longer than itself
  (\<open>i\<close> followed by U+0307). The other cased code points are left as they are: their
  lowercase forms are single code points that occur in none of the ASCII literals the
  scripts search for, so the positions found are the same.
\<close>

definition lower_cp :: "nat \<Rightarrow> pystr" where
  "lower_cp c = (if 65 \<le> c \<and> c \<le> 90 then [c + 32] else if c = 304 then [105, 775] else [c])"

definition py_lower :: "pystr \<Rightarrow> pystr" where
  "py_lower s = concat (map lower_cp s)"

text \<open>\<open>s.find(sub)\<close>: the least index at which \<open>sub\<close> occurs in \<open>s\<close>, or \<open>-1\<close>.\<close>

fun find_at :: "pystr \<Rightarrow> pystr \<Rightarrow> nat \<Rightarrow> int" where
  "find_at sub [] k = (if sub = [] then int k else - 1)"
| "find_at sub (c # s) k =
     (if take (length sub) (c # s) = sub then int k else find_at sub s (Suc k))"

definition py_find :: "pystr \<Rightarrow> pystr \<Rightarrow> int" where
  "py_find s sub = find_at sub s 0"

text \<open>\<open>s.split(sep, 1)\<close> for a non-empty \<open>sep\<close>.\<close>

definition split1 :: "pystr \<Rightarrow> pystr \<Rightarrow> pystr list" where
  "split1 s sep =
     (let i = py_find s sep in
      if i < 0 then [s] else [take (nat i) s, drop (nat i + length sep) s])"

text \<open>The slices \<open>s[:i]\<close> and \<open>s[i:]\<close>; a negative index counts from the end.\<close>

definition slice_to :: "pystr \<Rightarrow> int \<Rightarrow> pystr" where
  "slice_to s i = (if i < 0 then take (nat (int (length s) + i)) s else take (nat i) s)"

definition slice_from :: "pystr \<Rightarrow> int \<Rightarrow> pystr" where
  "slice_from s i = (if i < 0 then drop (nat (int (length s) + i)) s else drop (nat i) s)"

definition endswith :: "pystr \<Rightarrow> pystr \<Rightarrow> bool" where
  "endswith s suffix =
     (length suffix \<le> length s \<and> drop (length s - length suffix) s = suffix)"

text \<open>
  \<open>str.isdigit\<close>: the code points whose Unicode property \<open>Numeric_Type\<close> is
  \<open>Digit\<close> or \<open>Decimal\<close>, as inclusive ranges (Unicode 14.0, 788 code points: the
  ASCII digits first, then superscripts, the digits of other scripts, circled and
  fullwidth digits, and so on).
\<close>

definition digit_ranges :: "(nat \<times> nat) list" where
  "digit_ranges =
    [(48, 57), (178, 179), (185, 185), (1632, 1641), (1776, 1785), (1984, 1993),
     (2406, 2415), (2534, 2543), (2662, 2671), (2790, 2799), (2918, 2927), (3046, 3055),
     (3174, 3183), (3302, 3311), (3430, 3439), (3558, 3567), (3664, 3673), (3792, 3801),
     (3872, 3881), (4160, 4169), (4240, 4249), (4969, 4977), (6112, 6121), (6160, 6169),
     (6470, 6479), (6608, 6618), (6784, 6793), (6800, 6809), (6992, 7001), (7088, 7097),
     (7232, 7241), (7248, 7257), (8304, 8304), (8308, 8313), (8320, 8329), (9312, 9320),
     (9332, 9340), (9352, 9360), (9450, 9450), (9461, 9469), (9471, 9471), (10102, 10110),
     (10112, 10120), (10122, 10130), (42528, 42537), (43216, 43225), (43264, 43273),
     (43472, 43481), (43504, 43513), (43600, 43609), (44016, 44025), (65296, 65305),
     (66720, 66729), (68160, 68163), (68912, 68921), (69216, 69224), (69714, 69722),
     (69734, 69743), (69872, 69881), (69942, 69951), (70096, 70105), (70384, 70393),
     (70736, 70745), (70864, 70873), (71248, 71257), (71360, 71369), (71472, 71481),
     (71904, 71913), (72016, 72025), (72784, 72793), (73040, 73049), (73120, 73129),
     (92768, 92777), (92864, 92873), (93008, 93017), (120782, 120831), (123200, 123209),
     (123632, 123641), (125264, 125273), (127232, 127242), (130032, 130041)]"

definition isdigit :: "nat \<Rightarrow> bool" where
  "isdigit c = list_ex (\<lambda>(lo, hi). lo \<le> c \<and> c \<le> hi) digit_ranges"

text \<open>\<open>s.rfind(c)\<close> for a single character.\<close>

definition rfind_char :: "nat \<Rightarrow> pystr \<Rightarrow> int" where
  "rfind_char c s =
     (case filter (\<lambda>i. s ! i = c) (rev [0..<length s]) of [] \<Rightarrow> - 1 | i # _ \<Rightarrow> int i)"

text \<open>
  \<open>os.path.splitext(p)[0]\<close>: \<open>p\<close> up to its last dot, provided the dot comes after
  the last \<open>/\<close> and some character between the two is not a dot; \<open>p\<close> otherwise.
\<close>

definition splitext_root :: "pystr \<Rightarrow> pystr" where
  "splitext_root p =
     (let sepIndex = rfind_char 47 p; dotIndex = rfind_char 46 p in
      if dotIndex > sepIndex \<and>
         list_ex (\<lambda>k. p ! k \<noteq> 46) [nat (sepIndex + 1)..<nat dotIndex]
      then take (nat dotIndex) p
      else p)"

section \<open>The inference scripts: helpers\<close>

text \<open>
  \<open>get_image_id\<close>, \<open>parse_response_and_rationale\<close> and \<open>process_batch\<close>. The two
  inference scripts define \<open>get_image_id\<close> and \<open>process_batch\<close> with the same text.
\<close>

definition get_image_id :: "pystr \<Rightarrow> pystr" where
  "get_image_id filename = filter isdigit (splitext_root filename)"

definition parse_response_and_rationale :: "pystr \<Rightarrow> pystr \<times> pystr" where
  "parse_response_and_rationale response_text =
     (let parts = split1 (py_lower response_text) (str ''your rationale:'') in
      if length parts > 1 then
        let split_index = py_find (py_lower response_text) (str ''your rationale:'');
            analysis = py_strip (slice_to response_text split_index);
            rationale = py_strip (slice_from response_text
                          (split_index + int (length (str ''your rationale:''))))
        in (analysis, rationale)
      else (py_strip response_text, str ''No explicit rationale provided.''))"

text \<open>
  What one call of \<open>client.chat.completions.create\<close> leads to: an exception, or a
  response whose \<open>choices[0].message.content\<close> is a string or \<open>None\<close>. On \<open>None\<close>
  the call of \<open>.strip()\<close> raises inside the \<open>try\<close>, and \<open>except Exception\<close>
  catches it like any other.
\<close>

datatype chat_outcome = ApiException | Message "pystr option"

text \<open>
  \<open>process_batch\<close>. \<open>create k\<close> is the outcome of the \<open>k\<close>-th call of the endpoint
  in the run; \<open>n\<close> is the number of calls made so far, and the number of calls made is
  returned with the result (\<open>None\<close>: the batch is skipped).
\<close>

function process_batch ::
  "(nat \<Rightarrow> chat_outcome) \<Rightarrow> int \<Rightarrow> nat \<Rightarrow> pystr option \<times> nat" where
  "process_batch create retry_count n =
     (case create n of
        Message (Some content) \<Rightarrow> (Some (py_strip content), Suc n)
      | _ \<Rightarrow>
          if retry_count < MAX_RETRIES
          then process_batch create (retry_count + 1) (Suc n)
          else (None, Suc n))"
  by pat_completeness auto
termination
  by (relation "measure (\<lambda>(create, retry_count, n). nat (MAX_RETRIES - retry_count))") auto

text \<open>The outcomes after which \<open>process_batch\<close> retries.\<close>

fun chat_fails :: "chat_outcome \<Rightarrow> bool" where
  "chat_fails ApiException = True"
| "chat_fails (Message None) = True"
| "chat_fails (Message (Some content)) = False"

section \<open>The files of a run scope\<close>

text \<open>
  A scope owns one checkpoint file and one output file; both hold what \<open>json.dump\<close>
  wrote, and \<open>None\<close> is an absent file. The state of a run also counts the calls of the
  remote endpoint and lists what happened to the two files, oldest first.
\<close>

datatype file_event = CheckpointWritten | OutputWritten | CheckpointRemoved

record world =
  checkpoint_file :: "pydict option"
  output_file :: "pydict option"
  api_calls :: nat
  file_events :: "file_event list"

definition load_checkpoint :: "world \<Rightarrow> pydict" where
  "load_checkpoint w = (case checkpoint_file w of None \<Rightarrow> [] | Some results \<Rightarrow> results)"

definition write_checkpoint :: "pydict \<Rightarrow> world \<Rightarrow> world" where
  "write_checkpoint results w =
     w\<lparr>checkpoint_file := Some results, file_events := file_events w @ [CheckpointWritten]\<rparr>"

definition write_output :: "pydict \<Rightarrow> world \<Rightarrow> world" where
  "write_output results w =
     w\<lparr>output_file := Some results, file_events := file_events w @ [OutputWritten]\<rparr>"

text \<open>\<open>if os.path.exists(checkpoint_filename): os.remove(checkpoint_filename)\<close>\<close>

definition remove_checkpoint :: "world \<Rightarrow> world" where
  "remove_checkpoint w =
     (if checkpoint_file w \<noteq> None
      then w\<lparr>checkpoint_file := None, file_events := file_events w @ [CheckpointRemoved]\<rparr>
      else w)"

section \<open>The inference scripts: \<open>main\<close>\<close>

text \<open>
  \<open>run_zeroshot_no_rationales.py\<close> and \<open>run_zeroshot_with_rationales.py\<close> have the
  same \<open>main\<close> but for two places: the value stored for an image, and the filenames a
  batch response is stored under. The model has one \<open>main\<close> with the script as its
  first argument.
\<close>

datatype setting = NoRationales | WithRationales

definition BATCH_SIZE :: nat where
  "BATCH_SIZE = 8"

text \<open>What the run reads: the directory listing, the data files and the endpoint.\<close>

record inference_env =
  listdir :: "pystr list"
  text_exists :: "pystr \<Rightarrow> bool"
  encode_image :: "pystr \<Rightarrow> pystr option"
  read_text_file :: "pystr \<Rightarrow> pystr option"
  chat_api :: "nat \<Rightarrow> chat_outcome"

text \<open>\<open>str(i)\<close> for an \<open>int\<close>, as the f-strings \<open>f"Task_{args.task}"\<close> use it.\<close>

fun decimal :: "nat \<Rightarrow> pystr" where
  "decimal n = (if n < 10 then [48 + n] else decimal (n div 10) @ [48 + n mod 10])"

definition py_str_int :: "int \<Rightarrow> pystr" where
  "py_str_int i = (if i < 0 then 45 # decimal (nat (- i)) else decimal (nat i))"

text \<open>The value stored under an image id for a response of the model.\<close>

fun entry :: "setting \<Rightarrow> int \<Rightarrow> pystr \<Rightarrow> pystr \<Rightarrow> pyval" where
  "entry NoRationales task image_id result = PStr result"
| "entry WithRationales task image_id result =
     (case parse_response_and_rationale result of
        (analysis, rationale) \<Rightarrow>
          PDict [(str ''id'', PStr image_id),
                 (str ''Task_'' @ py_str_int task, PStr analysis),
                 (str ''Rationale_'' @ py_str_int task, PStr rationale)])"

definition is_image_file :: "pystr \<Rightarrow> bool" where
  "is_image_file f =
     (endswith (py_lower f) (str ''.png'') \<or> endswith (py_lower f) (str ''.jpg'') \<or>
      endswith (py_lower f) (str ''.jpeg''))"

text \<open>
  \<open>sorted([f for f in os.listdir(data_path) if ...], key=get_image_id)\<close>: a stable
  sort on the identifier strings, which Python compares code point by code point.
\<close>

definition all_files :: "pystr list \<Rightarrow> pystr list" where
  "all_files listing = sort_key get_image_id (filter is_image_file listing)"


text \<open>\<open>for filename in names: results[get_image_id(filename)] = ...\<close>\<close>

definition store_all :: "setting \<Rightarrow> int \<Rightarrow> pystr \<Rightarrow> pystr list \<Rightarrow> pydict \<Rightarrow> pydict" where
  "store_all setting task result names results =
     foldl (\<lambda>r filename.
              dict_set r (get_image_id filename)
                (entry setting task (get_image_id filename) result))
       results names"

text \<open>
  The end of a loop body: \<open>if result:\<close> stores the response under the given
  filenames, and the checkpoint is written in either case.
\<close>

definition record_result ::
  "setting \<Rightarrow> int \<Rightarrow> pystr list \<Rightarrow> pystr option \<times> nat \<Rightarrow> pydict \<times> world \<Rightarrow> pydict \<times> world" where
  "record_result setting task names answer st =
     (case (answer, st) of
        ((result, n), (results, w)) \<Rightarrow>
          let results' =
                (case result of
                   None \<Rightarrow> results
                 | Some r \<Rightarrow> if r \<noteq> [] then store_all setting task r names results else results)
          in (results', write_checkpoint results' (w\<lparr>api_calls := n\<rparr>)))"


text \<open>
  The body of the loop over image batches (tasks 1 to 5). \<open>valid_filenames\<close> are the
  images that were encoded and sent. The script without rationales stores the response
  under every filename of the batch, the script with rationales under the valid ones.
\<close>

definition process_image_batch ::
  "setting \<Rightarrow> inference_env \<Rightarrow> int \<Rightarrow> pystr list \<Rightarrow> pydict \<times> world \<Rightarrow> pydict \<times> world" where
  "process_image_batch setting env task batch_filenames st =
     (let valid_filenames = filter (\<lambda>f. truthy (encode_image env f)) batch_filenames in
      if valid_filenames = [] then st
      else record_result setting task
             (case setting of NoRationales \<Rightarrow> batch_filenames | WithRationales \<Rightarrow> valid_filenames)
             (process_batch (chat_api env) 0 (api_calls (snd st))) st)"

text \<open>\<open>for i in range(0, len(files_to_process), BATCH_SIZE)\<close>\<close>

function image_batch_loop ::
  "setting \<Rightarrow> inference_env \<Rightarrow> int \<Rightarrow> pystr list \<Rightarrow> pydict \<times> world \<Rightarrow> pydict \<times> world" where
  "image_batch_loop setting env task files st =
     (if files = [] then st
      else image_batch_loop setting env task (drop BATCH_SIZE files)
             (process_image_batch setting env task (take BATCH_SIZE files) st))"
  by pat_completeness auto
termination
  by (relation "measure (\<lambda>(setting, env, task, files, st). length files)")
     (auto simp: BATCH_SIZE_def)



section \<open>run\_evaluation.py: one inference output file\<close>

text \<open>
  What the evaluation of one file reads: the responses loaded from it (\<open>{}\<close> when
  loading fails), the judge endpoint (\<open>judge item_id k\<close> is the outcome of the
  \<open>k\<close>-th call made for the item; the items are evaluated by independent workers),
  and the interpreter's parser of float literals.
\<close>

record eval_env =
  vlm_responses :: pydict
  judge :: "pystr \<Rightarrow> nat \<Rightarrow> judge_outcome"
  float_parser :: "pystr \<Rightarrow> pyfloat option"

text \<open>\<open>v[key]\<close> for a string key.\<close>

fun subscript :: "pyval \<Rightarrow> pystr \<Rightarrow> exn + pyval" where
  "subscript (PDict d) key = (case map_of d key of None \<Rightarrow> Inl KeyError | Some v \<Rightarrow> Inr v)"
| "subscript v key = Inl TypeError"

text \<open>
  The loop that fills \<open>tasks_to_run\<close>. An item whose id is a key of the checkpoint is
  skipped. Building the prompt reads \<open>response_data[f"Task_{task}"]\<close> and then
  \<open>TASK_INSTRUCTIONS[task]\<close>, a table with the keys 1 and 8; either can raise, which
  ends the run. (\<open>read_text_file\<close> of this script never returns \<open>None\<close>, so the test
  on it never skips an item.) A task is represented by its item id.
\<close>

fun tasks_to_run :: "int \<Rightarrow> pydict \<Rightarrow> pydict \<Rightarrow> exn + pystr list" where
  "tasks_to_run task [] eval_results = Inr []"
| "tasks_to_run task ((item_id, response_data) # rest) eval_results =
     (if item_id \<in> dict_keys eval_results then tasks_to_run task rest eval_results
      else
        case subscript response_data (str ''Task_'' @ py_str_int task) of
          Inl e \<Rightarrow> Inl e
        | Inr response \<Rightarrow>
            if task \<noteq> 1 \<and> task \<noteq> 8 then Inl KeyError
            else
              (case tasks_to_run task rest eval_results of
                 Inl e \<Rightarrow> Inl e
               | Inr ids \<Rightarrow> Inr (item_id # ids)))"

text \<open>What the worker of an item returns, and the number of calls it makes.\<close>

definition item_result :: "eval_env \<Rightarrow> pystr \<Rightarrow> exn + pystr \<times> pyval" where
  "item_result env item_id =
     fst (evaluate_one_item (float_parser env) (judge env item_id) item_id 0 0)"

definition item_calls :: "eval_env \<Rightarrow> pystr \<Rightarrow> nat" where
  "item_calls env item_id =
     snd (evaluate_one_item (float_parser env) (judge env item_id) item_id 0 0)"

text \<open>
  The loop over the futures, in submission order: \<open>future.result()\<close> returns the
  worker's pair or raises the worker's exception, which ends the run; the checkpoint is
  written when the number of results is a multiple of 20.
\<close>

fun collect :: "eval_env \<Rightarrow> pystr list \<Rightarrow> pydict \<times> world \<Rightarrow> exn option \<times> pydict \<times> world" where
  "collect env [] (eval_results, w) = (None, eval_results, w)"
| "collect env (item_id # rest) (eval_results, w) =
     (case item_result env item_id of
        Inl e \<Rightarrow> (Some e, eval_results, w)
      | Inr (text_id, result) \<Rightarrow>
          let eval_results' = dict_set eval_results text_id result;
              w' = (if length eval_results' mod 20 = 0
                    then write_checkpoint eval_results' w else w)
          in collect env rest (eval_results', w'))"

datatype eval_status = NoResponses | AllEvaluated | Finished | Crashed exn

text \<open>
  The body of the loop over the files to evaluate. Every submitted worker runs to its
  end, also when the loop over the futures is left by an exception, so the calls of all
  of them are counted.
\<close>

definition evaluate_file :: "eval_env \<Rightarrow> int \<Rightarrow> world \<Rightarrow> eval_status \<times> world" where
  "evaluate_file env task w =
     (if vlm_responses env = [] then (NoResponses, w)
      else
        case tasks_to_run task (vlm_responses env) (load_checkpoint w) of
          Inl e \<Rightarrow> (Crashed e, w)
        | Inr tasks \<Rightarrow>
            if tasks = [] then (AllEvaluated, w)
            else
              (case collect env tasks
                      (load_checkpoint w,
                       w\<lparr>api_calls := api_calls w + sum_list (map (item_calls env) tasks)\<rparr>) of
                 (Some e, eval_results, w') \<Rightarrow> (Crashed e, w')
               | (None, eval_results, w') \<Rightarrow>
                   (Finished, remove_checkpoint (write_output eval_results w'))))"

section \<open>download\_data.py: \<open>download_image\<close>\<close>

text \<open>
  \<open>RequestFailed\<close> is any exception of \<open>requests.get\<close> or \<open>raise_for_status\<close>
  (the two outer handlers only print a warning), \<open>Content\<close> a response with its
  bytes, which are then written to \<open>save_path\<close> (the write is taken to succeed). Of
  the outcomes of \<open>Image.open\<close> and \<open>verify\<close>, \<open>Corrupted\<close> stands for the three
  exceptions the inner handler names (\<open>IOError\<close>, \<open>SyntaxError\<close>,
  \<open>UnidentifiedImageError\<close>), after which the file is removed, and \<open>VerifyRaised\<close>
  for any other exception, which the outer \<open>except Exception\<close> catches, leaving the
  file where it is.
\<close>

datatype get_outcome = RequestFailed | Content "nat list"

datatype verify_outcome = Valid | Corrupted | VerifyRaised

record download_env =
  http_get :: "nat \<Rightarrow> pystr \<Rightarrow> get_outcome"
  verify :: "nat list \<Rightarrow> verify_outcome"

text \<open>The files on disk, and the number of requests made so far.\<close>

record disk =
  stored :: "pystr \<Rightarrow> nat list option"
  requests :: nat

definition download_image :: "download_env \<Rightarrow> pystr \<times> pystr \<Rightarrow> disk \<Rightarrow> disk" where
  "download_image env args d =
     (case args of
        (image_url, save_path) \<Rightarrow>
          if stored d save_path \<noteq> None then d
          else
            (case http_get env (requests d) image_url of
               RequestFailed \<Rightarrow> d\<lparr>requests := Suc (requests d)\<rparr>
             | Content bytes \<Rightarrow>
                 (let written = d\<lparr>stored := (stored d)(save_path \<mapsto> bytes),
                                  requests := Suc (requests d)\<rparr>
                  in case verify env bytes of
                       Valid \<Rightarrow> written
                     | Corrupted \<Rightarrow> written\<lparr>stored := (stored written)(save_path := None)\<rparr>
                     | VerifyRaised \<Rightarrow> written)))"

section \<open>The order the specification names\<close>

text \<open>
  Following the words of the specification (``sorted by the numeric identifier''): the
  number an identifier made of ASCII digits denotes. The scripts do not compute it; it
  is the order the enumeration is compared with.
\<close>

definition id_number :: "pystr \<Rightarrow> nat" where
  "id_number digits = foldl (\<lambda>a c. 10 * a + (c - 48)) 0 digits"

section \<open>Progress of a run\<close>


section \<open>Example runs\<close>

text \<open>
  A scope with no file yet; a data directory with one image, which the model answers
  at the first call; a responses file with one item, for which every call of the judge
  has the given outcome; a responses file with two items, where the judge never
  answers in JSON for the first and answers the bare number 85 for the second.
\<close>

definition empty_world :: world where
  "empty_world = \<lparr>checkpoint_file = None, output_file = None, api_calls = 0, file_events = []\<rparr>"


definition one_item_env :: "judge_outcome \<Rightarrow> eval_env" where
  "one_item_env outcome =
     \<lparr>vlm_responses = [(str ''1'', PDict [(str ''Task_1'', PStr (str ''a cat''))])],
      judge = (\<lambda>item_id k. outcome), float_parser = (\<lambda>s. None)\<rparr>"

definition two_item_env :: eval_env where
  "two_item_env =
     \<lparr>vlm_responses =
        [(str ''1'', PDict [(str ''Task_1'', PStr (str ''a cat''))]),
         (str ''2'', PDict [(str ''Task_1'', PStr (str ''a dog''))])],
      judge = (\<lambda>item_id k. if item_id = str ''1'' then JSONDecodeError else Loaded (PInt 85)),
      float_parser = (\<lambda>s. None)\<rparr>"

section \<open>Properties: the retrying remote invokers\<close>

declare evaluate_one_item.simps [simp del] process_batch.simps [simp del]
  image_batch_loop.simps [simp del]

lemma evaluate_calls_bound:
  "snd (evaluate_one_item parse post text_id retry_count n)
     \<le> n + nat (max 1 (MAX_RETRIES + 1 - retry_count))"
proof (induction parse post text_id retry_count n rule: evaluate_one_item.induct)
  case (1 parse post text_id retry_count n)
  show ?case
  proof (cases "try_block parse (post n)")
    case Retry
    show ?thesis
    proof (cases "retry_count < MAX_RETRIES")
      case True
      from "1.IH" [OF Retry True] True show ?thesis
        by (subst evaluate_one_item.simps) (simp add: Retry MAX_RETRIES_def)
    next
      case False
      then show ?thesis
        by (subst evaluate_one_item.simps) (simp add: Retry)
    qed
  qed (simp_all add: evaluate_one_item.simps)
qed

lemma evaluate_success_after:
  "\<forall>j<k. try_block parse (post (n + j)) = Retry \<Longrightarrow>
   try_block parse (post (n + k)) = Return score \<Longrightarrow>
   retry_count + int k \<le> MAX_RETRIES \<Longrightarrow>
   evaluate_one_item parse post text_id retry_count n =
     (Inr (text_id, PDict [(str ''score'', score)]), n + k + 1)"
proof (induction k arbitrary: retry_count n)
  case 0
  then show ?case by (simp add: evaluate_one_item.simps)
next
  case (Suc k)
  from Suc.prems(1) have first: "try_block parse (post n) = Retry"
    by (metis add.right_neutral zero_less_Suc)
  from Suc.prems(1) have rest: "\<forall>j<k. try_block parse (post (Suc n + j)) = Retry"
    by (metis Suc_less_eq add_Suc_shift)
  from Suc.prems(3) have lt: "retry_count < MAX_RETRIES" by simp
  have "evaluate_one_item parse post text_id (retry_count + 1) (Suc n) =
     (Inr (text_id, PDict [(str ''score'', score)]), Suc n + k + 1)"
    using Suc.IH [OF rest] Suc.prems(2,3) by simp
  with first lt show ?case
    by (subst evaluate_one_item.simps) simp
qed

lemma evaluate_exhausted:
  "\<forall>j\<le>k. try_block parse (post (n + j)) = Retry \<Longrightarrow>
   retry_count + int k = MAX_RETRIES \<Longrightarrow>
   evaluate_one_item parse post text_id retry_count n =
     (Inr (text_id, PDict [(str ''score'', PInt 50)]), n + k + 1)"
proof (induction k arbitrary: retry_count n)
  case 0
  then show ?case by (simp add: evaluate_one_item.simps)
next
  case (Suc k)
  from Suc.prems(1) have first: "try_block parse (post n) = Retry"
    by (metis add.right_neutral le0)
  from Suc.prems(1) have rest: "\<forall>j\<le>k. try_block parse (post (Suc n + j)) = Retry"
    by (metis Suc_le_mono add_Suc_shift)
  from Suc.prems(2) have lt: "retry_count < MAX_RETRIES" by simp
  have "evaluate_one_item parse post text_id (retry_count + 1) (Suc n) =
     (Inr (text_id, PDict [(str ''score'', PInt 50)]), Suc n + k + 1)"
    using Suc.IH [OF rest] Suc.prems(2) by simp
  with first lt show ?case
    by (subst evaluate_one_item.simps) simp
qed

lemma process_batch_calls_bound:
  "snd (process_batch create retry_count n)
     \<le> n + nat (max 1 (MAX_RETRIES + 1 - retry_count))"
proof (induction create retry_count n rule: process_batch.induct)
  case (1 create retry_count n)
  show ?case
  proof (cases "create n")
    case ApiException
    show ?thesis
    proof (cases "retry_count < MAX_RETRIES")
      case True
      from "1.IH"(1) [OF ApiException True] True show ?thesis
        by (subst process_batch.simps) (simp add: ApiException MAX_RETRIES_def)
    next
      case False
      then show ?thesis
        by (subst process_batch.simps) (simp add: ApiException)
    qed
  next
    case (Message content)
    show ?thesis
    proof (cases content)
      case None
      show ?thesis
      proof (cases "retry_count < MAX_RETRIES")
        case True
        from "1.IH"(2) [OF Message None True] True show ?thesis
          by (subst process_batch.simps) (simp add: Message None MAX_RETRIES_def)
      next
        case False
        then show ?thesis
          by (subst process_batch.simps) (simp add: Message None)
      qed
    next
      case (Some s)
      then show ?thesis
        by (subst process_batch.simps) (simp add: Message)
    qed
  qed
qed

lemma process_batch_step_fail:
  "chat_fails (create n) \<Longrightarrow>
   process_batch create retry_count n =
     (if retry_count < MAX_RETRIES then process_batch create (retry_count + 1) (Suc n)
      else (None, Suc n))"
  by (subst process_batch.simps) (auto split: chat_outcome.splits option.splits)

lemma process_batch_success_after:
  "\<forall>j<k. chat_fails (create (n + j)) \<Longrightarrow>
   create (n + k) = Message (Some content) \<Longrightarrow>
   retry_count + int k \<le> MAX_RETRIES \<Longrightarrow>
   process_batch create retry_count n = (Some (py_strip content), n + k + 1)"
proof (induction k arbitrary: retry_count n)
  case 0
  then show ?case by (simp add: process_batch.simps)
next
  case (Suc k)
  from Suc.prems(1) have first: "chat_fails (create n)"
    by (metis add.right_neutral zero_less_Suc)
  from Suc.prems(1) have rest: "\<forall>j<k. chat_fails (create (Suc n + j))"
    by (metis Suc_less_eq add_Suc_shift)
  from Suc.prems(3) have lt: "retry_count < MAX_RETRIES" by simp
  have "process_batch create (retry_count + 1) (Suc n) = (Some (py_strip content), Suc n + k + 1)"
    using Suc.IH [OF rest] Suc.prems(2,3) by simp
  with first lt show ?case
    by (simp add: process_batch_step_fail)
qed

lemma process_batch_exhausted:
  "\<forall>j\<le>k. chat_fails (create (n + j)) \<Longrightarrow>
   retry_count + int k = MAX_RETRIES \<Longrightarrow>
   process_batch create retry_count n = (None, n + k + 1)"
proof (induction k arbitrary: retry_count n)
  case 0
  then show ?case by (simp add: process_batch_step_fail)
next
  case (Suc k)
  from Suc.prems(1) have first: "chat_fails (create n)"
    by (metis add.right_neutral le0)
  from Suc.prems(1) have rest: "\<forall>j\<le>k. chat_fails (create (Suc n + j))"
    by (metis Suc_le_mono add_Suc_shift)
  from Suc.prems(2) have lt: "retry_count < MAX_RETRIES" by simp
  have "process_batch create (retry_count + 1) (Suc n) = (None, Suc n + k + 1)"
    using Suc.IH [OF rest] Suc.prems(2) by simp
  with first lt show ?case
    by (simp add: process_batch_step_fail)
qed

text \<open>
  C1. Started with \<open>retry_count = 0\<close>, \<open>evaluate_one_item\<close> and \<open>process_batch\<close>
  call the remote endpoint at most \<open>MAX_RETRIES + 1 = 4\<close> times. If the first \<open>k\<close>
  calls, \<open>k \<le> MAX_RETRIES\<close>, fail in a way the function retries and the next one
  succeeds, the result of that call is returned after \<open>k + 1\<close> calls. If all
  \<open>MAX_RETRIES + 1\<close> calls fail in that way, the terminal fallback is returned after
  exactly that many calls: the fixed score 50 for the judge, \<open>None\<close> (skip) for
  inference.
\<close>

theorem retry_budget:
  "nat (MAX_RETRIES + 1) = 4 \<and>
   snd (evaluate_one_item parse post text_id 0 n) \<le> n + nat (MAX_RETRIES + 1) \<and>
   snd (process_batch create 0 n) \<le> n + nat (MAX_RETRIES + 1) \<and>
   (int k \<le> MAX_RETRIES \<longrightarrow>
      (\<forall>j<k. try_block parse (post (n + j)) = Retry) \<longrightarrow>
      try_block parse (post (n + k)) = Return score \<longrightarrow>
      evaluate_one_item parse post text_id 0 n =
        (Inr (text_id, PDict [(str ''score'', score)]), n + k + 1)) \<and>
   ((\<forall>j\<le>nat MAX_RETRIES. try_block parse (post (n + j)) = Retry) \<longrightarrow>
      evaluate_one_item parse post text_id 0 n =
        (Inr (text_id, PDict [(str ''score'', PInt 50)]), n + nat (MAX_RETRIES + 1))) \<and>
   (int k \<le> MAX_RETRIES \<longrightarrow>
      (\<forall>j<k. chat_fails (create (n + j))) \<longrightarrow>
      create (n + k) = Message (Some content) \<longrightarrow>
      process_batch create 0 n = (Some (py_strip content), n + k + 1)) \<and>
   ((\<forall>j\<le>nat MAX_RETRIES. chat_fails (create (n + j))) \<longrightarrow>
      process_batch create 0 n = (None, n + nat (MAX_RETRIES + 1)))"
proof -
  have four: "nat (MAX_RETRIES + 1) = 4"
    by (simp add: MAX_RETRIES_def)
  have "snd (evaluate_one_item parse post text_id 0 n) \<le> n + nat (MAX_RETRIES + 1)"
    using evaluate_calls_bound [of parse post text_id 0 n] by (simp add: MAX_RETRIES_def)
  moreover have "snd (process_batch create 0 n) \<le> n + nat (MAX_RETRIES + 1)"
    using process_batch_calls_bound [of create 0 n] by (simp add: MAX_RETRIES_def)
  moreover have "(\<forall>j\<le>nat MAX_RETRIES. try_block parse (post (n + j)) = Retry) \<longrightarrow>
      evaluate_one_item parse post text_id 0 n =
        (Inr (text_id, PDict [(str ''score'', PInt 50)]), n + nat (MAX_RETRIES + 1))"
    using evaluate_exhausted [of "nat MAX_RETRIES" parse post n 0 text_id]
    by (simp add: MAX_RETRIES_def)
  moreover have "(\<forall>j\<le>nat MAX_RETRIES. chat_fails (create (n + j))) \<longrightarrow>
      process_batch create 0 n = (None, n + nat (MAX_RETRIES + 1))"
    using process_batch_exhausted [of "nat MAX_RETRIES" create n 0]
    by (simp add: MAX_RETRIES_def)
  ultimately show ?thesis
    using four evaluate_success_after [of k parse post n score 0 text_id]
      process_batch_success_after [of k create n content 0]
    by simp
qed

theorem retry_budget_witness:
  "evaluate_one_item (\<lambda>s. None)
     (\<lambda>k. if k < 3 then RequestException else Loaded (PDict [(str ''score'', PInt 85)]))
     (str ''7'') 0 0 =
     (Inr (str ''7'', PDict [(str ''score'', PFloat (Finite 85))]), 4) \<and>
   evaluate_one_item (\<lambda>s. None) (\<lambda>k. JSONDecodeError) (str ''7'') 0 0 =
     (Inr (str ''7'', PDict [(str ''score'', PInt 50)]), 4) \<and>
   process_batch (\<lambda>k. if k < 3 then ApiException else Message (Some (str '' ok ''))) 0 0 =
     (Some (str ''ok''), 4) \<and>
   process_batch (\<lambda>k. Message None) 0 0 = (None, 4)"
  using
    retry_budget [where parse = "\<lambda>s. None" and text_id = "str ''7''" and n = 0 and k = 3
      and post = "\<lambda>k. if k < 3 then RequestException else Loaded (PDict [(str ''score'', PInt 85)])"
      and score = "PFloat (Finite 85)"
      and create = "\<lambda>k. if k < 3 then ApiException else Message (Some (str '' ok ''))"
      and content = "str '' ok ''"]
    retry_budget [where parse = "\<lambda>s. None" and text_id = "str ''7''" and n = 0 and k = 0
      and post = "\<lambda>k. JSONDecodeError" and create = "\<lambda>k. Message None"]
  by (simp add: MAX_RETRIES_def clip_score_def dict_get_def int_to_float_def str_def
        py_strip_def isspace_def)

section \<open>Properties: score clamping\<close>

lemma clip_score_finite:
  "py_float parse v = Inr (Finite x) \<Longrightarrow>
   clip_score parse v =
     Inr (if x < 0 then PInt 0 else if x > 100 then PInt 100 else PFloat (Finite x))"
  by (simp add: clip_score_def)

lemma clip_score_rejected:
  "py_float parse v = Inl TypeError \<or> py_float parse v = Inl ValueError \<Longrightarrow>
   clip_score parse v = Inr PNone"
  by (auto simp: clip_score_def)

lemma rejected_score_retried:
  "clip_score parse (dict_get score_data (str ''score'')) = Inr PNone \<Longrightarrow>
   try_block parse (Loaded (PDict score_data)) = Retry"
  by simp

lemma bit_length_lower: "0 < n \<Longrightarrow> 2 ^ (bit_length n - 1) \<le> n"
proof (induction n rule: bit_length.induct)
  case (1 n)
  show ?case
  proof (cases "n div 2 = 0")
    case True
    with "1.prems" have "n = 1" by presburger
    then show ?thesis by simp
  next
    case False
    then have pos: "0 < n div 2" by simp
    then have "0 < bit_length (n div 2)" by simp
    then obtain b where b: "bit_length (n div 2) = Suc b"
      by (cases "bit_length (n div 2)") auto
    from "1.IH" "1.prems" pos have "2 ^ (bit_length (n div 2) - 1) \<le> n div 2" by simp
    with b have "2 ^ b \<le> n div 2" by simp
    then have "2 * 2 ^ b \<le> n" by presburger
    moreover have "bit_length n = Suc (Suc b)" using "1.prems" b by simp
    ultimately show ?thesis by simp
  qed
qed

lemma bit_length_upper: "n < 2 ^ bit_length n"
proof (induction n rule: bit_length.induct)
  case (1 n)
  show ?case
  proof (cases "n = 0")
    case True
    then show ?thesis by simp
  next
    case False
    with "1.IH" have "n div 2 < 2 ^ bit_length (n div 2)" by simp
    then have "n < 2 * 2 ^ bit_length (n div 2)" by presburger
    with False show ?thesis by simp
  qed
qed

lemma rounded_at_least:
  fixes a :: nat
  assumes "2 ^ E \<le> a" and "53 \<le> E"
  shows "53 < bit_length a \<and> 2 ^ E \<le> a div 2 ^ (bit_length a - 53) * 2 ^ (bit_length a - 53)"
proof -
  define n where "n = bit_length a"
  define sh where "sh = n - 53"
  have "a < 2 ^ n" unfolding n_def by (rule bit_length_upper)
  with assms(1) have "(2::nat) ^ E < 2 ^ n" by linarith
  then have n: "E < n" by simp
  have "0 < a" using assms(1) by (cases "a = 0") auto
  then have low: "2 ^ (n - 1) \<le> a" unfolding n_def by (rule bit_length_lower)
  have split: "n - 1 = 52 + sh" using n assms(2) unfolding sh_def by simp
  have "(2::nat) ^ 52 * 2 ^ sh \<le> a" using low unfolding split by (simp only: power_add)
  then have "2 ^ 52 \<le> a div 2 ^ sh"
    by (simp only: less_eq_div_iff_mult_less_eq zero_less_power zero_less_numeral)
  then have "2 ^ 52 * 2 ^ sh \<le> a div 2 ^ sh * 2 ^ sh" by (rule mult_le_mono1)
  moreover have "E \<le> 52 + sh" using n assms(2) unfolding sh_def by simp
  then have "(2::nat) ^ E \<le> 2 ^ (52 + sh)" by (rule power_increasing) simp
  then have "(2::nat) ^ E \<le> 2 ^ 52 * 2 ^ sh" by (simp only: power_add)
  ultimately have "2 ^ E \<le> a div 2 ^ sh * 2 ^ sh" by (rule_tac order_trans)
  moreover have "53 < n" using n assms(2) by simp
  ultimately show ?thesis unfolding sh_def n_def by (rule_tac conjI)
qed

lemma int_to_float_overflow:
  assumes "2 ^ 1024 \<le> \<bar>i\<bar>"
  shows "int_to_float i = Inl OverflowError"
proof -
  define a where "a = nat \<bar>i\<bar>"
  define sh where "sh = bit_length a - 53"
  have "int (2 ^ 1024) \<le> \<bar>i\<bar>" using assms by (simp only: of_nat_power of_nat_numeral)
  then have "2 ^ 1024 \<le> a" unfolding a_def by (simp only: le_nat_iff nat_int)
  then have "53 < bit_length a \<and> 2 ^ 1024 \<le> a div 2 ^ sh * 2 ^ sh"
    unfolding sh_def by (rule rounded_at_least) simp
  then have big: "\<not> bit_length a \<le> 53" and q: "2 ^ 1024 \<le> a div 2 ^ sh * 2 ^ sh"
    by (simp_all only: not_le) 
  have q1: "2 ^ 1024 \<le> (a div 2 ^ sh + 1) * 2 ^ sh"
    using q by (simp only: add_mult_distrib trans_le_add1)
  show ?thesis
    unfolding int_to_float_def Let_def a_def [symmetric] sh_def [symmetric]
    using big q q1 by (simp only: if_False if_True simp_thms split: if_split)
qed

text \<open>
  C2. \<open>clip_score\<close> clamps every finite number into \<open>[0, 100]\<close>
  (\<open>clip_score_finite\<close>), returns \<open>None\<close> when \<open>float()\<close> raises \<open>TypeError\<close> or
  \<open>ValueError\<close> (\<open>clip_score_rejected\<close>), and \<open>evaluate_one_item\<close> retries after
  \<open>None\<close> (\<open>rejected_score_retried\<close>). The claim fails on the float NaN, which
  \<open>json.loads\<close> reads from the text \<open>{"score": NaN}\<close>: both comparisons are false, so
  \<open>clip_score\<close> returns NaN, neither a value of \<open>[0, 100]\<close> nor \<open>None\<close>, and
  \<open>evaluate_one_item\<close> accepts it at the first call. It also fails on an \<open>int\<close> too
  large for a double, where \<open>float()\<close> raises \<open>OverflowError\<close>, which \<open>clip_score\<close>
  does not catch.
\<close>

theorem clip_score_nan_accepted:
  "clip_score parse (PFloat NaN) = Inr (PFloat NaN) \<and>
   evaluate_one_item parse (\<lambda>k. Loaded (PDict [(str ''score'', PFloat NaN)])) text_id 0 0 =
     (Inr (text_id, PDict [(str ''score'', PFloat NaN)]), 1) \<and>
   clip_score parse (PInt (2 ^ 1024)) = Inl OverflowError"
proof -
  have nan: "clip_score parse (PFloat NaN) = Inr (PFloat NaN)"
    by (simp add: clip_score_def)
  have "try_block parse (Loaded (PDict [(str ''score'', PFloat NaN)])) = Return (PFloat NaN)"
    by (simp add: nan dict_get_def)
  then have run: "evaluate_one_item parse (\<lambda>k. Loaded (PDict [(str ''score'', PFloat NaN)])) text_id 0 0 =
     (Inr (text_id, PDict [(str ''score'', PFloat NaN)]), 1)"
    by (subst evaluate_one_item.simps) simp
  have "int_to_float (2 ^ 1024) = Inl OverflowError"
    by (rule int_to_float_overflow) (simp del: power_numeral)
  then have "clip_score parse (PInt (2 ^ 1024)) = Inl OverflowError"
    by (simp add: clip_score_def del: power_numeral)
  with nan run show ?thesis by simp
qed

section \<open>Properties: the rationale split\<close>

lemmas string_defs =
  str_def py_strip_def isspace_def py_lower_def lower_cp_def py_find_def split1_def
  slice_to_def slice_from_def endswith_def

lemma isdigit_below_178: "c < 178 \<Longrightarrow> isdigit c \<longleftrightarrow> 48 \<le> c \<and> c \<le> 57"
  by (auto simp: isdigit_def digit_ranges_def)

lemma isdigit_arabic_indic: "isdigit 1635"
  by (simp add: isdigit_def digit_ranges_def)

lemmas image_id_defs =
  get_image_id_def splitext_root_def rfind_char_def isdigit_below_178 str_def Let_def upt_rec

lemma str_eq_iff [simp]: "str a = str b \<longleftrightarrow> a = b"
  by (simp add: str_def inj_map_eq_map [OF inj_of_char])

lemma str_empty_iff [simp]: "str a = [] \<longleftrightarrow> a = []"
  by (simp add: str_def)

lemma find_at_first:
  "\<forall>i<n. take (length sub) (drop i s) \<noteq> sub \<Longrightarrow>
   take (length sub) (drop n s) = sub \<Longrightarrow> n \<le> length s \<Longrightarrow>
   find_at sub s k = int (k + n)"
proof (induction s arbitrary: n k)
  case Nil
  then show ?case by auto
next
  case (Cons c s)
  show ?case
  proof (cases n)
    case 0
    with Cons.prems show ?thesis by simp
  next
    case (Suc m)
    with Cons.prems(1) have head: "take (length sub) (c # s) \<noteq> sub"
      by (metis drop0 zero_less_Suc)
    from Cons.prems(1) Suc have "\<forall>i<m. take (length sub) (drop i s) \<noteq> sub"
      by (metis Suc_less_eq drop_Suc_Cons)
    moreover from Cons.prems(2,3) Suc have "take (length sub) (drop m s) = sub" "m \<le> length s"
      by simp_all
    ultimately have "find_at sub s (Suc k) = int (Suc k + m)"
      by (rule Cons.IH)
    with head Suc show ?thesis by simp
  qed
qed

lemma find_at_absent:
  "\<forall>i. take (length sub) (drop i s) \<noteq> sub \<Longrightarrow> find_at sub s k = - 1"
proof (induction s arbitrary: k)
  case Nil
  then show ?case by (metis drop_Nil find_at.simps(1) take_Nil)
next
  case (Cons c s)
  from Cons.prems have head: "take (length sub) (c # s) \<noteq> sub"
    by (metis drop0)
  from Cons.prems have "\<forall>i. take (length sub) (drop i s) \<noteq> sub"
    by (metis drop_Suc_Cons)
  then have "find_at sub s (Suc k) = - 1" by (rule Cons.IH)
  with head show ?case by simp
qed

lemma py_lower_append: "py_lower (a @ b) = py_lower a @ py_lower b"
  by (simp add: py_lower_def)

lemma length_py_lower: "304 \<notin> set s \<Longrightarrow> length (py_lower s) = length s"
  by (induction s) (auto simp: py_lower_def lower_cp_def)

lemma rationale_split_general:
  "(304 \<notin> set (before @ mark) \<longrightarrow>
    py_lower mark = str ''your rationale:'' \<longrightarrow>
    (\<forall>i<length before.
       take (length (str ''your rationale:'')) (drop i (py_lower (before @ mark @ after)))
         \<noteq> str ''your rationale:'') \<longrightarrow>
    parse_response_and_rationale (before @ mark @ after) = (py_strip before, py_strip after)) \<and>
   ((\<forall>i. take (length (str ''your rationale:'')) (drop i (py_lower response_text))
         \<noteq> str ''your rationale:'') \<longrightarrow>
    parse_response_and_rationale response_text =
      (py_strip response_text, str ''No explicit rationale provided.''))"
proof (intro conjI impI)
  let ?marker = "str ''your rationale:''"
  assume plain: "304 \<notin> set (before @ mark)" and mark: "py_lower mark = ?marker"
    and first: "\<forall>i<length before.
       take (length ?marker) (drop i (py_lower (before @ mark @ after))) \<noteq> ?marker"
  let ?text = "before @ mark @ after"
  have len_before: "length (py_lower before) = length before"
    using plain by (simp add: length_py_lower)
  have len_mark: "length mark = length ?marker"
    using plain mark length_py_lower [of mark] by simp
  have lower: "py_lower ?text = py_lower before @ ?marker @ py_lower after"
    by (simp add: py_lower_append mark)
  have "take (length ?marker) (drop (length before) (py_lower ?text)) = ?marker"
    unfolding lower using len_before by simp
  moreover have "length before \<le> length (py_lower ?text)"
    unfolding lower using len_before by simp
  ultimately have found: "find_at ?marker (py_lower ?text) 0 = int (0 + length before)"
    using first by (intro find_at_first) auto
  have "slice_to ?text (int (length before)) = before"
    by (simp add: slice_to_def)
  moreover have "slice_from ?text (int (length before) + int (length ?marker)) = after"
    using len_mark by (simp add: slice_from_def nat_add_distrib)
  ultimately show "parse_response_and_rationale ?text = (py_strip before, py_strip after)"
    using found
    by (simp add: parse_response_and_rationale_def split1_def py_find_def Let_def)
next
  let ?marker = "str ''your rationale:''"
  assume "\<forall>i. take (length ?marker) (drop i (py_lower response_text)) \<noteq> ?marker"
  then have "find_at ?marker (py_lower response_text) 0 = - 1"
    by (rule find_at_absent)
  then show "parse_response_and_rationale response_text =
      (py_strip response_text, str ''No explicit rationale provided.'')"
    by (simp add: parse_response_and_rationale_def split1_def py_find_def Let_def)
qed

lemma rationale_split_scenario:
  "parse_response_and_rationale (str ''Detailed analysis... Your Rationale: because X'') =
     (str ''Detailed analysis...'', str ''because X'') \<and>
   parse_response_and_rationale (str '' no marker here '') =
     (str ''no marker here'', str ''No explicit rationale provided.'')"
  by (simp add: parse_response_and_rationale_def string_defs Let_def)

text \<open>
  C7. On a text without U+0130 before the end of the marker the function splits at
  the first case-insensitive occurrence of the marker and returns the stripped halves
  of the original text, and without the marker it returns the stripped text and the
  sentinel (\<open>rationale_split_general\<close>, \<open>rationale_split_scenario\<close>). The index
  of the marker is found in the lowercased text and applied to the original text; the
  two differ in length when the text holds U+0130, whose lowercase form has two code
  points. On the response \<open>"\<dots>stanbul. Your rationale: sign"\<close> that begins with
  U+0130 the analysis returned ends with the first letter of the marker instead of
  ending before the marker.
\<close>

theorem rationale_split_dotted_capital_I:
  "parse_response_and_rationale (304 # str ''stanbul. Your rationale: sign'') =
     (304 # str ''stanbul. Y'', str ''sign'')"
  by (simp add: parse_response_and_rationale_def string_defs Let_def)

section \<open>Properties: image batches\<close>

lemma map_of_store_all:
  "map_of (store_all setting task r names results) k =
     (if k \<in> get_image_id ` set names then Some (entry setting task k r) else map_of results k)"
  unfolding store_all_def
  by (induction names arbitrary: results) (auto simp: dict_set_def update_conv')

lemma fst_record_result_Some:
  "r \<noteq> [] \<Longrightarrow>
   fst (record_result setting task names (Some r, n) (results, w)) =
     store_all setting task r names results"
  by (simp add: record_result_def Let_def)

text \<open>
  C10. In the image-only path, take a batch in which at least one image is encoded and
  for which \<open>process_batch\<close> returns a non-empty response. The script without
  rationales stores the response under the id of every filename of the batch, encoded
  or not. The script with rationales stores its entry under the ids of the encoded
  filenames, and leaves alone every id that no encoded filename of the batch has.
\<close>

theorem batch_response_recorded:
  assumes "\<exists>f\<in>set batch. truthy (encode_image env f)"
    and "process_batch (chat_api env) 0 (api_calls w) = (Some r, n)"
    and "r \<noteq> []"
  shows "(\<forall>f\<in>set batch.
            map_of (fst (process_image_batch NoRationales env task batch (results, w)))
              (get_image_id f) = Some (PStr r)) \<and>
         (\<forall>f\<in>set batch. truthy (encode_image env f) \<longrightarrow>
            map_of (fst (process_image_batch WithRationales env task batch (results, w)))
              (get_image_id f) = Some (entry WithRationales task (get_image_id f) r)) \<and>
         (\<forall>f\<in>set batch.
            get_image_id f \<notin> get_image_id ` {g \<in> set batch. truthy (encode_image env g)} \<longrightarrow>
            map_of (fst (process_image_batch WithRationales env task batch (results, w)))
              (get_image_id f) = map_of results (get_image_id f))"
proof -
  from assms(1) have valid: "filter (\<lambda>f. truthy (encode_image env f)) batch \<noteq> []"
    by (simp add: filter_empty_conv)
  have nr: "fst (process_image_batch NoRationales env task batch (results, w)) =
      store_all NoRationales task r batch results"
    using valid assms(2,3) by (simp add: process_image_batch_def fst_record_result_Some)
  have wr: "fst (process_image_batch WithRationales env task batch (results, w)) =
      store_all WithRationales task r (filter (\<lambda>f. truthy (encode_image env f)) batch) results"
    using valid assms(2,3) by (simp add: process_image_batch_def fst_record_result_Some)
  show ?thesis
    unfolding nr wr by (auto simp: map_of_store_all)
qed

theorem batch_response_recorded_witness:
  "map_of (fst (process_image_batch NoRationales
       \<lparr>listdir = [], text_exists = (\<lambda>i. False),
        encode_image = (\<lambda>f. if f = str ''1.jpg'' then Some (str ''QQ'') else None),
        read_text_file = (\<lambda>i. None), chat_api = (\<lambda>k. Message (Some (str '' a cat '')))\<rparr>
       1 [str ''1.jpg'', str ''2.jpg'']
       ([], \<lparr>checkpoint_file = None, output_file = None, api_calls = 0, file_events = []\<rparr>)))
     (str ''2'') = Some (PStr (str ''a cat'')) \<and>
   map_of (fst (process_image_batch WithRationales
       \<lparr>listdir = [], text_exists = (\<lambda>i. False),
        encode_image = (\<lambda>f. if f = str ''1.jpg'' then Some (str ''QQ'') else None),
        read_text_file = (\<lambda>i. None), chat_api = (\<lambda>k. Message (Some (str '' a cat '')))\<rparr>
       1 [str ''1.jpg'', str ''2.jpg'']
       ([], \<lparr>checkpoint_file = None, output_file = None, api_calls = 0, file_events = []\<rparr>)))
     (str ''2'') = None \<and>
   map_of (fst (process_image_batch WithRationales
       \<lparr>listdir = [], text_exists = (\<lambda>i. False),
        encode_image = (\<lambda>f. if f = str ''1.jpg'' then Some (str ''QQ'') else None),
        read_text_file = (\<lambda>i. None), chat_api = (\<lambda>k. Message (Some (str '' a cat '')))\<rparr>
       1 [str ''1.jpg'', str ''2.jpg'']
       ([], \<lparr>checkpoint_file = None, output_file = None, api_calls = 0, file_events = []\<rparr>)))
     (str ''1'') =
     Some (PDict [(str ''id'', PStr (str ''1'')), (str ''Task_1'', PStr (str ''a cat'')),
                  (str ''Rationale_1'', PStr (str ''No explicit rationale provided.''))])"
proof -
  let ?env = "\<lparr>listdir = [], text_exists = (\<lambda>i. False),
        encode_image = (\<lambda>f. if f = str ''1.jpg'' then Some (str ''QQ'') else None),
        read_text_file = (\<lambda>i. None), chat_api = (\<lambda>k. Message (Some (str '' a cat '')))\<rparr>"
  let ?w = "\<lparr>checkpoint_file = None, output_file = None, api_calls = 0, file_events = []\<rparr>"
  have answer: "process_batch (chat_api ?env) 0 (api_calls ?w) = (Some (str ''a cat''), 1)"
    using process_batch_success_after [of 0 "chat_api ?env" 0 "str '' a cat ''" 0]
    by (simp add: MAX_RETRIES_def string_defs)
  have ids: "get_image_id (str ''1.jpg'') = str ''1''" "get_image_id (str ''2.jpg'') = str ''2''"
    by (simp_all add: image_id_defs)
  have entry: "entry WithRationales 1 (str ''1'') (str ''a cat'') =
      PDict [(str ''id'', PStr (str ''1'')), (str ''Task_1'', PStr (str ''a cat'')),
             (str ''Rationale_1'', PStr (str ''No explicit rationale provided.''))]"
    by (simp add: parse_response_and_rationale_def string_defs py_str_int_def Let_def)
  have encoded: "\<exists>f\<in>set [str ''1.jpg'', str ''2.jpg'']. truthy (encode_image ?env f)"
    by simp
  have nonempty: "str ''a cat'' \<noteq> []"
    by simp
  have other: "get_image_id (str ''2.jpg'') \<notin> get_image_id `
      {g \<in> set [str ''1.jpg'', str ''2.jpg'']. truthy (encode_image ?env g)}"
    by (auto simp: ids)
  note inst = batch_response_recorded [OF encoded answer nonempty, of 1 "[]"]
  have a: "map_of (fst (process_image_batch NoRationales ?env 1 [str ''1.jpg'', str ''2.jpg'']
             ([], ?w))) (get_image_id (str ''2.jpg'')) = Some (PStr (str ''a cat''))"
    using inst by (simp del: entry.simps)
  have b: "map_of (fst (process_image_batch WithRationales ?env 1 [str ''1.jpg'', str ''2.jpg'']
             ([], ?w))) (get_image_id (str ''1.jpg'')) =
           Some (entry WithRationales 1 (get_image_id (str ''1.jpg'')) (str ''a cat''))"
    using inst by (simp del: entry.simps)
  have c: "map_of (fst (process_image_batch WithRationales ?env 1 [str ''1.jpg'', str ''2.jpg'']
             ([], ?w))) (get_image_id (str ''2.jpg'')) = map_of [] (get_image_id (str ''2.jpg''))"
    using bspec [OF conjunct2 [OF conjunct2 [OF inst]], of "str ''2.jpg''"] other
    by (simp del: entry.simps)
  from a b c show ?thesis
    unfolding ids entry by simp
qed

section \<open>Properties: image download\<close>

lemma existing_file_skipped:
  "stored d save_path \<noteq> None \<Longrightarrow> download_image env (image_url, save_path) d = d"
  by (simp add: download_image_def)

text \<open>
  When the file is absent, the request succeeds and the bytes written fail the
  verification with one of the three exceptions the inner handler names, then after
  \<open>download_image\<close> the file is absent again, no other file has changed, and exactly
  one request was made (the failure is not retried). A later call for the same item,
  whatever the network does then, finds no file and makes a request again.
\<close>

lemma corrupt_download_deleted:
  assumes "stored d save_path = None"
    and "http_get env (requests d) image_url = Content bytes"
    and "verify env bytes = Corrupted"
  shows "stored (download_image env (image_url, save_path) d) save_path = None \<and>
         requests (download_image env (image_url, save_path) d) = requests d + 1 \<and>
         (\<forall>p. p \<noteq> save_path \<longrightarrow>
            stored (download_image env (image_url, save_path) d) p = stored d p) \<and>
         requests (download_image env' (image_url, save_path)
                     (download_image env (image_url, save_path) d)) = requests d + 2"
proof -
  let ?d = "download_image env (image_url, save_path) d"
  have d: "?d = d\<lparr>stored := ((stored d)(save_path \<mapsto> bytes))(save_path := None),
                   requests := Suc (requests d)\<rparr>"
    using assms by (simp add: download_image_def)
  have again: "requests (download_image env' (image_url, save_path) ?d) = Suc (requests ?d)"
    unfolding d
    by (simp add: download_image_def Let_def split: get_outcome.split verify_outcome.split)
  show ?thesis
    using again by (simp add: d)
qed

lemma corrupt_download_deleted_example:
  "stored (download_image \<lparr>http_get = (\<lambda>k url. Content [255, 216]), verify = (\<lambda>b. Corrupted)\<rparr>
            (str ''http://host/1'', str ''data/en/images/1.jpg'')
            \<lparr>stored = (\<lambda>p. None), requests = 0\<rparr>)
     (str ''data/en/images/1.jpg'') = None \<and>
   requests (download_image \<lparr>http_get = (\<lambda>k url. Content [255, 216]), verify = (\<lambda>b. Corrupted)\<rparr>
            (str ''http://host/1'', str ''data/en/images/1.jpg'')
            \<lparr>stored = (\<lambda>p. None), requests = 0\<rparr>) = 1 \<and>
   requests (download_image \<lparr>http_get = (\<lambda>k url. RequestFailed), verify = (\<lambda>b. Valid)\<rparr>
            (str ''http://host/1'', str ''data/en/images/1.jpg'')
            (download_image \<lparr>http_get = (\<lambda>k url. Content [255, 216]), verify = (\<lambda>b. Corrupted)\<rparr>
               (str ''http://host/1'', str ''data/en/images/1.jpg'')
               \<lparr>stored = (\<lambda>p. None), requests = 0\<rparr>)) = 2"
  using corrupt_download_deleted
    [of "\<lparr>stored = (\<lambda>p. None), requests = 0\<rparr>" "str ''data/en/images/1.jpg''"
        "\<lparr>http_get = (\<lambda>k url. Content [255, 216]), verify = (\<lambda>b. Corrupted)\<rparr>"
        "str ''http://host/1''" "[255, 216]"
        "\<lparr>http_get = (\<lambda>k url. RequestFailed), verify = (\<lambda>b. Valid)\<rparr>"]
  by simp

text \<open>
  C9. A file that exists is skipped without a request (\<open>existing_file_skipped\<close>),
  and a file whose verification fails with \<open>IOError\<close>, \<open>SyntaxError\<close> or
  \<open>UnidentifiedImageError\<close> is removed after one request and requested again by a
  later call (\<open>corrupt_download_deleted\<close>). The claim fails when the verification
  fails with any other exception (Pillow's \<open>DecompressionBombError\<close>, for one): the
  inner handler does not name it, the outer handler only prints a warning, the file
  written stays on disk, and every later call, whatever the network and the
  verification do then, skips the item, so the download is never attempted again.
\<close>

theorem unverified_download_kept:
  "stored (download_image \<lparr>http_get = (\<lambda>k url. Content [137, 80, 78, 71]), verify = (\<lambda>b. VerifyRaised)\<rparr>
            (str ''http://host/1'', str ''data/en/images/1.jpg'')
            \<lparr>stored = (\<lambda>p. None), requests = 0\<rparr>)
     (str ''data/en/images/1.jpg'') = Some [137, 80, 78, 71] \<and>
   download_image env' (str ''http://host/1'', str ''data/en/images/1.jpg'')
     (download_image \<lparr>http_get = (\<lambda>k url. Content [137, 80, 78, 71]), verify = (\<lambda>b. VerifyRaised)\<rparr>
        (str ''http://host/1'', str ''data/en/images/1.jpg'')
        \<lparr>stored = (\<lambda>p. None), requests = 0\<rparr>) =
     \<lparr>stored = (\<lambda>p. None)(str ''data/en/images/1.jpg'' \<mapsto> [137, 80, 78, 71]), requests = 1\<rparr>"
proof -
  have first: "download_image \<lparr>http_get = (\<lambda>k url. Content [137, 80, 78, 71]), verify = (\<lambda>b. VerifyRaised)\<rparr>
        (str ''http://host/1'', str ''data/en/images/1.jpg'')
        \<lparr>stored = (\<lambda>p. None), requests = 0\<rparr> =
      \<lparr>stored = (\<lambda>p. None)(str ''data/en/images/1.jpg'' \<mapsto> [137, 80, 78, 71]), requests = 1\<rparr>"
    by (simp add: download_image_def)
  show ?thesis
    unfolding first by (simp add: existing_file_skipped)
qed

section \<open>Properties: the resumability filter\<close>



section \<open>Properties: the order of enumeration\<close>

lemma lexicographic_ids: "str ''10'' < str ''2'' \<and> str ''9'' < str ''90''"
  by (simp add: str_def)

text \<open>
  C8, as stated, fails: the sort key is the identifier string, so \<open>10.jpg\<close> comes
  before \<open>2.jpg\<close>, which is not the order of the numbers 2 and 10.
\<close>

theorem numeric_order_counterexample:
  "all_files [str ''2.jpg'', str ''10.jpg''] = [str ''10.jpg'', str ''2.jpg''] \<and>
   \<not> sorted (map (\<lambda>f. id_number (get_image_id f)) (all_files [str ''2.jpg'', str ''10.jpg'']))"
proof -
  have ids: "get_image_id (str ''2.jpg'') = str ''2''" "get_image_id (str ''10.jpg'') = str ''10''"
    by (simp_all add: image_id_defs)
  have img: "is_image_file (str ''2.jpg'')" "is_image_file (str ''10.jpg'')"
    by (simp_all add: is_image_file_def string_defs)
  have files: "all_files [str ''2.jpg'', str ''10.jpg''] = [str ''10.jpg'', str ''2.jpg'']"
    by (simp add: all_files_def img ids) (simp add: str_def)
  show ?thesis
    unfolding files by (simp add: ids) (simp add: id_number_def str_def)
qed

lemma all_files_other_digits:
  "get_image_id (1635 # str ''.jpg'') = [1635] \<and>
   all_files [str ''5.jpg'', 1635 # str ''.jpg''] = [str ''5.jpg'', 1635 # str ''.jpg'']"
proof -
  have ids: "get_image_id (1635 # str ''.jpg'') = [1635]" "get_image_id (str ''5.jpg'') = str ''5''"
    by (simp_all add: image_id_defs isdigit_arabic_indic)
  have img: "is_image_file (str ''5.jpg'')" "is_image_file (1635 # str ''.jpg'')"
    by (simp_all add: is_image_file_def string_defs)
  show ?thesis
    by (simp add: all_files_def img ids) (simp add: str_def)
qed

text \<open>
  C8, amended. The enumerators produce the image files ordered by the identifier
  string of each filename under Python's string comparison (code point by code point,
  so \<open>"10" < "2"\<close>), files with the same identifier staying in listing order. When
  the identifiers are distinct, the result is the same for every order in which the
  filesystem lists the directory, so the processing order is stable across runs. The
  identifier holds every code point \<open>str.isdigit\<close> accepts, those outside ASCII
  included (\<open>all_files_other_digits\<close>).
\<close>

theorem all_files_sorted_by_id_string:
  "sorted (map get_image_id (all_files listing)) \<and>
   mset (all_files listing) = mset (filter is_image_file listing) \<and>
   filter (\<lambda>f. get_image_id f = k) (all_files listing) =
     filter (\<lambda>f. get_image_id f = k) (filter is_image_file listing) \<and>
   (mset listing' = mset listing \<longrightarrow>
    distinct (map get_image_id (filter is_image_file listing)) \<longrightarrow>
    all_files listing' = all_files listing)"
proof -
  have "all_files listing' = all_files listing"
    if perm: "mset listing' = mset listing"
      and dist: "distinct (map get_image_id (filter is_image_file listing))"
  proof -
    have "mset (filter is_image_file listing') = mset (filter is_image_file listing)"
      using perm by (metis mset_filter)
    then have same: "mset (filter is_image_file listing') = mset (all_files listing)"
      by (simp add: all_files_def)
    have "set (filter is_image_file listing') = set (filter is_image_file listing)"
      using \<open>mset (filter is_image_file listing') = mset (filter is_image_file listing)\<close>
      by (rule mset_eq_setD)
    moreover have "inj_on get_image_id (set (filter is_image_file listing))"
      using dist by (simp add: distinct_map)
    ultimately have inj: "inj_on get_image_id (set (filter is_image_file listing'))"
      by simp
    have "sort_key get_image_id (filter is_image_file listing') = all_files listing"
      using same inj by (rule sort_key_inj_key_eq) (simp add: all_files_def)
    then show ?thesis by (simp add: all_files_def)
  qed
  then show ?thesis
    by (simp add: all_files_def sort_key_stable)
qed

theorem all_files_sorted_by_id_string_witness:
  "all_files [str ''b7.png'', str ''a12.jpg'', str ''notes.txt''] =
   all_files [str ''notes.txt'', str ''a12.jpg'', str ''b7.png'']"
proof -
  have ids: "get_image_id (str ''b7.png'') = str ''7''" "get_image_id (str ''a12.jpg'') = str ''12''"
    by (simp_all add: image_id_defs)
  have img: "is_image_file (str ''b7.png'')" "is_image_file (str ''a12.jpg'')"
    "\<not> is_image_file (str ''notes.txt'')"
    by (simp_all add: is_image_file_def string_defs)
  have perm: "mset [str ''b7.png'', str ''a12.jpg'', str ''notes.txt''] =
      mset [str ''notes.txt'', str ''a12.jpg'', str ''b7.png'']"
    by (simp add: add.commute)
  have dist: "distinct (map get_image_id
      (filter is_image_file [str ''notes.txt'', str ''a12.jpg'', str ''b7.png'']))"
    by (simp add: img ids)
  from all_files_sorted_by_id_string
    [of "[str ''notes.txt'', str ''a12.jpg'', str ''b7.png'']" k
      "[str ''b7.png'', str ''a12.jpg'', str ''notes.txt'']"] perm dist
  show ?thesis by blast
qed

section \<open>Properties: the loops of the inference scripts\<close>












section \<open>Properties: the evaluation of a file\<close>

lemma evaluate_returns_id:
  "evaluate_one_item parse post text_id retry_count n = (Inr (tid, v), m) \<Longrightarrow>
   tid = text_id \<and> (\<exists>s. v = PDict [(str ''score'', s)])"
proof (induction parse post text_id retry_count n rule: evaluate_one_item.induct)
  case (1 parse post text_id retry_count n)
  from "1.prems" show ?case
    by (subst (asm) evaluate_one_item.simps)
       (auto split: attempt.splits if_splits dest: "1.IH")
qed


lemma evaluate_no_raise:
  "\<forall>k e. try_block parse (post k) \<noteq> Raise e \<Longrightarrow>
   \<exists>s. fst (evaluate_one_item parse post text_id retry_count n) =
         Inr (text_id, PDict [(str ''score'', s)])"
proof (induction parse post text_id retry_count n rule: evaluate_one_item.induct)
  case (1 parse post text_id retry_count n)
  show ?case
  proof (cases "try_block parse (post n)")
    case (Return score)
    then show ?thesis by (subst evaluate_one_item.simps) simp
  next
    case Retry
    show ?thesis
    proof (cases "retry_count < MAX_RETRIES")
      case True
      with "1.IH" [OF Retry True "1.prems"] Retry show ?thesis
        by (subst evaluate_one_item.simps) simp
    next
      case False
      with Retry show ?thesis by (subst evaluate_one_item.simps) simp
    qed
  next
    case (Raise e)
    with "1.prems" show ?thesis by blast
  qed
qed

lemma item_result_id:
  "item_result env item_id = Inr (tid, v) \<Longrightarrow> tid = item_id \<and> (\<exists>s. v = PDict [(str ''score'', s)])"
  unfolding item_result_def
  by (metis evaluate_returns_id prod.collapse)



lemma collect_result:
  "collect env tasks (eval_results, w) = (None, eval_results', w') \<Longrightarrow>
   (\<forall>item_id. map_of eval_results' item_id =
      (if item_id \<in> set tasks
       then (case item_result env item_id of Inr (tid, v) \<Rightarrow> Some v | Inl e \<Rightarrow> None)
       else map_of eval_results item_id)) \<and>
   (\<forall>item_id\<in>set tasks. \<exists>v. item_result env item_id = Inr (item_id, v)) \<and>
   output_file w' = output_file w \<and> api_calls w' = api_calls w \<and>
   (\<exists>k. file_events w' = file_events w @ replicate k CheckpointWritten)"
proof (induction tasks arbitrary: eval_results w)
  case Nil
  then show ?case by (auto intro: exI [of _ 0])
next
  case (Cons item_id tasks)
  from Cons.prems obtain tid v where res: "item_result env item_id = Inr (tid, v)"
    by (auto split: sum.splits)
  then have tid: "tid = item_id" by (simp add: item_result_id)
  define r1 where "r1 = dict_set eval_results item_id v"
  define w1 where "w1 = (if length r1 mod 20 = 0 then write_checkpoint r1 w else w)"
  from Cons.prems res tid have rest: "collect env tasks (r1, w1) = (None, eval_results', w')"
    by (auto simp: r1_def w1_def Let_def split: if_splits)
  note ih = Cons.IH [OF rest]
  have w1: "output_file w1 = output_file w" "api_calls w1 = api_calls w"
    "\<exists>k. file_events w1 = file_events w @ replicate k CheckpointWritten"
    unfolding w1_def
    by (auto simp: write_checkpoint_def intro: exI [of _ 0] exI [of _ 1])
  from ih w1(3) obtain k k' where
    "file_events w' = file_events w1 @ replicate k CheckpointWritten"
    "file_events w1 = file_events w @ replicate k' CheckpointWritten"
    by blast
  then have "file_events w' = file_events w @ replicate (k' + k) CheckpointWritten"
    by (simp add: replicate_add)
  then have ev: "\<exists>k. file_events w' = file_events w @ replicate k CheckpointWritten"
    by blast
  have r1: "map_of r1 = (map_of eval_results)(item_id \<mapsto> v)"
    by (simp add: r1_def dict_set_def update_conv')
  show ?case
    using ih w1(1,2) ev res tid by (auto simp: r1)
qed

lemma collect_total:
  "\<forall>item_id\<in>set tasks. \<exists>v. item_result env item_id = Inr v \<Longrightarrow>
   \<exists>eval_results' w'. collect env tasks (eval_results, w) = (None, eval_results', w')"
proof (induction tasks arbitrary: eval_results w)
  case Nil
  show ?case by simp
next
  case (Cons item_id tasks)
  then obtain tid v where "item_result env item_id = Inr (tid, v)"
    by fastforce
  with Cons show ?case by (simp add: Let_def)
qed



lemma tasks_to_run_nonempty:
  "tasks_to_run task vlm eval_results = Inr tasks \<Longrightarrow> tasks \<noteq> [] \<Longrightarrow> vlm \<noteq> []"
  by (cases vlm) auto

lemma output_after_finalize:
  "output_file (remove_checkpoint (write_output eval_results w)) = Some eval_results \<and>
   checkpoint_file (remove_checkpoint (write_output eval_results w)) = None \<and>
   api_calls (remove_checkpoint (write_output eval_results w)) = api_calls w \<and>
   (\<exists>post. file_events (remove_checkpoint (write_output eval_results w)) =
             file_events w @ [OutputWritten] @ post \<and>
           (post = [] \<or> post = [CheckpointRemoved]))"
  by (simp add: remove_checkpoint_def write_output_def)




section \<open>Properties: example runs\<close>




lemma one_item_tasks:
  "tasks_to_run 1 (vlm_responses (one_item_env outcome)) [] = Inr [str ''1'']"
  "tasks_to_run 1 (vlm_responses (one_item_env outcome)) [(str ''1'', v)] = Inr []"
  by (simp_all add: one_item_env_def dict_keys_def py_str_int_def str_def)


lemma load_checkpoint_simps:
  "load_checkpoint empty_world = []"
  "load_checkpoint (empty_world\<lparr>checkpoint_file := Some results\<rparr>) = results"
  by (simp_all add: load_checkpoint_def empty_world_def)


section \<open>Properties: the default score\<close>

text \<open>
  Take a file whose preparation succeeds and leaves items to dispatch, and a judge
  none of whose outcomes raises an exception that \<open>evaluate_one_item\<close> does not
  catch. Then the evaluation of the file finishes and writes an output in which every
  dispatched id is mapped to a \<open>{"score": ...}\<close> value (the value \<open>clip_score\<close>
  returned, or the default); and for an item all of whose \<open>MAX_RETRIES + 1\<close> calls
  fail, \<open>evaluate_one_item\<close> returns, and the output holds, the fixed default
  \<open>{"score": 50}\<close>.
\<close>

lemma default_score_on_exhaustion:
  assumes prep: "tasks_to_run task (vlm_responses env) (load_checkpoint w) = Inr tasks"
    and nonempty: "tasks \<noteq> []"
    and caught: "\<forall>item_id\<in>set tasks. \<forall>k e.
                   try_block (float_parser env) (judge env item_id k) \<noteq> Raise e"
  shows "fst (evaluate_file env task w) = Finished \<and>
         (\<exists>out. output_file (snd (evaluate_file env task w)) = Some out \<and>
            (\<forall>item_id\<in>set tasks.
               (\<exists>s. map_of out item_id = Some (PDict [(str ''score'', s)])) \<and>
               ((\<forall>k\<le>nat MAX_RETRIES.
                   try_block (float_parser env) (judge env item_id k) = Retry) \<longrightarrow>
                item_result env item_id = Inr (item_id, PDict [(str ''score'', PInt 50)]) \<and>
                map_of out item_id = Some (PDict [(str ''score'', PInt 50)]))))"
proof -
  let ?w0 = "w\<lparr>api_calls := api_calls w + sum_list (map (item_calls env) tasks)\<rparr>"
  have scored: "\<exists>s. item_result env item_id = Inr (item_id, PDict [(str ''score'', s)])"
    if "item_id \<in> set tasks" for item_id
    using that caught evaluate_no_raise [of "float_parser env" "judge env item_id" item_id 0 0]
    by (simp add: item_result_def)
  then have "\<forall>item_id\<in>set tasks. \<exists>v. item_result env item_id = Inr v"
    by blast
  then obtain out w1 where coll: "collect env tasks (load_checkpoint w, ?w0) = (None, out, w1)"
    using collect_total by blast
  from prep nonempty have "vlm_responses env \<noteq> []"
    by (rule tasks_to_run_nonempty)
  with prep nonempty coll
  have run: "evaluate_file env task w = (Finished, remove_checkpoint (write_output out w1))"
    by (simp add: evaluate_file_def)
  have out: "map_of out item_id =
      (case item_result env item_id of Inr (tid, v) \<Rightarrow> Some v | Inl e \<Rightarrow> None)"
    if "item_id \<in> set tasks" for item_id
    using collect_result [OF coll] that by simp
  have "(\<exists>s. map_of out item_id = Some (PDict [(str ''score'', s)])) \<and>
        ((\<forall>k\<le>nat MAX_RETRIES.
            try_block (float_parser env) (judge env item_id k) = Retry) \<longrightarrow>
         item_result env item_id = Inr (item_id, PDict [(str ''score'', PInt 50)]) \<and>
         map_of out item_id = Some (PDict [(str ''score'', PInt 50)]))"
    if mem: "item_id \<in> set tasks" for item_id
  proof -
    from scored [OF mem] out [OF mem]
    have first: "\<exists>s. map_of out item_id = Some (PDict [(str ''score'', s)])"
      by auto
    have "item_result env item_id = Inr (item_id, PDict [(str ''score'', PInt 50)])"
      if "\<forall>k\<le>nat MAX_RETRIES. try_block (float_parser env) (judge env item_id k) = Retry"
      using that
        evaluate_exhausted [of "nat MAX_RETRIES" "float_parser env" "judge env item_id" 0 0 item_id]
      by (simp add: item_result_def MAX_RETRIES_def)
    with first out [OF mem] show ?thesis by auto
  qed
  then show ?thesis
    using run output_after_finalize [of out w1] by auto
qed

lemma default_score_on_exhaustion_example:
  "fst (evaluate_file (one_item_env JSONDecodeError) 1 empty_world) = Finished \<and>
   (\<exists>out. output_file (snd (evaluate_file (one_item_env JSONDecodeError) 1 empty_world)) = Some out \<and>
      map_of out (str ''1'') = Some (PDict [(str ''score'', PInt 50)]))"
proof -
  have prep: "tasks_to_run 1 (vlm_responses (one_item_env JSONDecodeError))
      (load_checkpoint empty_world) = Inr [str ''1'']"
    by (simp add: load_checkpoint_simps one_item_tasks)
  have caught: "\<forall>item_id\<in>set [str ''1'']. \<forall>k e.
      try_block (float_parser (one_item_env JSONDecodeError))
        (judge (one_item_env JSONDecodeError) item_id k) \<noteq> Raise e"
    by (simp add: one_item_env_def)
  have retried: "\<forall>k\<le>nat MAX_RETRIES.
      try_block (float_parser (one_item_env JSONDecodeError))
        (judge (one_item_env JSONDecodeError) (str ''1'') k) = Retry"
    by (simp add: one_item_env_def)
  from default_score_on_exhaustion [OF prep _ caught] retried show ?thesis
    by auto
qed

text \<open>
  C3. An item all of whose \<open>MAX_RETRIES + 1\<close> calls fail gets the default
  \<open>{"score": 50}\<close> from \<open>evaluate_one_item\<close>, and it is in the output when no
  answer of the judge raises an exception that \<open>evaluate_one_item\<close> leaves
  uncaught (\<open>default_score_on_exhaustion\<close>). The claim fails when some answer is
  valid JSON but not an object, here the bare number 85 for item 2:
  \<open>score_data.get\<close> raises \<open>AttributeError\<close>, none of the handlers catches it,
  \<open>future.result()\<close> raises it in \<open>main\<close>, and the run ends before the output
  file is written. Item 1, whose four calls failed and whose worker returned the
  default score, is left without a score: there is no output file.
\<close>

theorem uncaught_answer_leaves_items_unscored:
  "item_result two_item_env (str ''1'') = Inr (str ''1'', PDict [(str ''score'', PInt 50)]) \<and>
   item_result two_item_env (str ''2'') = Inl AttributeError \<and>
   evaluate_file two_item_env 1 empty_world =
     (Crashed AttributeError, empty_world\<lparr>api_calls := 5\<rparr>) \<and>
   output_file (snd (evaluate_file two_item_env 1 empty_world)) = None"
proof -
  have one: "evaluate_one_item (float_parser two_item_env) (judge two_item_env (str ''1''))
      (str ''1'') 0 0 = (Inr (str ''1'', PDict [(str ''score'', PInt 50)]), 4)"
    using evaluate_exhausted [of "nat MAX_RETRIES" "float_parser two_item_env"
        "judge two_item_env (str ''1'')" 0 0 "str ''1''"]
    by (simp add: two_item_env_def MAX_RETRIES_def)
  have "try_block (float_parser two_item_env) (judge two_item_env (str ''2'') 0) =
      Raise AttributeError"
    by (simp add: two_item_env_def)
  then have two: "evaluate_one_item (float_parser two_item_env) (judge two_item_env (str ''2''))
      (str ''2'') 0 0 = (Inl AttributeError, 1)"
    by (subst evaluate_one_item.simps) simp
  have tasks: "tasks_to_run 1 (vlm_responses two_item_env) [] = Inr [str ''1'', str ''2'']"
    by (simp add: two_item_env_def dict_keys_def py_str_int_def str_def)
  have vlm: "vlm_responses two_item_env \<noteq> []"
    by (simp add: two_item_env_def)
  have run: "evaluate_file two_item_env 1 empty_world =
      (Crashed AttributeError, empty_world\<lparr>api_calls := api_calls empty_world + 5\<rparr>)"
    by (simp add: evaluate_file_def vlm load_checkpoint_simps tasks item_result_def
        item_calls_def one two dict_set_def Let_def)
  then have "evaluate_file two_item_env 1 empty_world =
      (Crashed AttributeError, empty_world\<lparr>api_calls := 5\<rparr>)"
    by (simp add: empty_world_def)
  then show ?thesis
    by (simp add: item_result_def one two) (simp add: empty_world_def)
qed

section \<open>Properties: finalization\<close>




section \<open>Properties: running again\<close>




end
